theory Spec2Isabelle
  imports Complex_Main "HOL-Library.Sublist"
begin

section \<open>Data model of \<open>load_to_database.py\<close>\<close>

text \<open>
  A Python \<open>str\<close> is a sequence of Unicode code points, so a string is a list of natural
  numbers (\<open>len\<close> is \<open>length\<close>, \<open>w in s\<close> is the contiguous-sublist test). An ASCII
  literal of the source is written \<open>U ''...''\<close>; the Arabic keywords are written as their
  code points.
\<close>

type_synonym pystr = "nat list"

abbreviation (input) U :: "string \<Rightarrow> pystr" where
  "U s \<equiv> map of_char s"

abbreviation (input) chr :: "char \<Rightarrow> nat" where
  "chr c \<equiv> of_char c"

text \<open>
  The values \<open>json.loads\<close> produces. A \<open>dict\<close> is an association list read with
  \<open>map_of\<close>: \<open>key in d\<close> is \<open>map_of d key \<noteq> None\<close> and \<open>d[key]\<close> is the value found.
  Python's \<open>None\<close> and JSON's \<open>null\<close> are the same value, \<open>JNull\<close>. A float is the real
  number it denotes.
\<close>

datatype json =
    JNull
  | JBool bool
  | JInt int
  | JFloat real
  | JStr pystr
  | JArr "json list"
  | JObj "(pystr \<times> json) list"

type_synonym dict = "(pystr \<times> json) list"

text \<open>Python truthiness (\<open>if x\<close>, \<open>not x\<close>, \<open>x or y\<close>) of a decoded value.\<close>

fun truthy :: "json \<Rightarrow> bool" where
  "truthy JNull = False"
| "truthy (JBool b) = b"
| "truthy (JInt n) = (n \<noteq> 0)"
| "truthy (JFloat x) = (x \<noteq> 0)"
| "truthy (JStr s) = (s \<noteq> [])"
| "truthy (JArr xs) = (xs \<noteq> [])"
| "truthy (JObj kvs) = (kvs \<noteq> [])"

text \<open>\<open>d.get(key, default)\<close>.\<close>

definition dict_get :: "dict \<Rightarrow> pystr \<Rightarrow> json \<Rightarrow> json" where
  "dict_get d k dflt = (case map_of d k of Some v \<Rightarrow> v | None \<Rightarrow> dflt)"

text \<open>\<open>a or b\<close> on values.\<close>

definition py_or :: "json \<Rightarrow> json \<Rightarrow> json" where
  "py_or a b = (if truthy a then a else b)"

section \<open>\<open>extract_customer_phone\<close>\<close>

definition possible_fields :: "pystr list" where
  "possible_fields =
     [U ''remoteJid'', U ''from'', U ''to'', U ''sender'', U ''chatId'',
      U ''participant'', U ''jid'', U ''phone'', U ''number'', U ''contact'']"

definition key_fields :: "pystr list" where
  "key_fields = [U ''remoteJid'', U ''participant'', U ''from'', U ''to'']"

definition parent_names :: "pystr list" where
  "parent_names = [U ''message'', U ''chat'', U ''contact'', U ''sender'']"

definition parent_fields :: "pystr list" where
  "parent_fields = [U ''jid'', U ''phone'', U ''id'', U ''number'']"

text \<open>
  \<^verbatim>\<open>for field in fields: if field in d and d[field]: phone = d[field]; break\<close>
  (lines 170-173 and 178-181): the first field that is present and truthy is taken.
\<close>

fun lookup_fields :: "dict \<Rightarrow> pystr list \<Rightarrow> json \<Rightarrow> json" where
  "lookup_fields d [] phone = phone"
| "lookup_fields d (f # fs) phone =
     (case map_of d f of
        Some v \<Rightarrow> if truthy v then v else lookup_fields d fs phone
      | None \<Rightarrow> lookup_fields d fs phone)"

text \<open>
  \<^verbatim>\<open>for field in ['jid', 'phone', 'id', 'number']: if field in msg[parent]: phone = ...; break\<close>
  (lines 187-190): the first field that is present is taken, whatever its value.
\<close>

fun lookup_present :: "dict \<Rightarrow> pystr list \<Rightarrow> json \<Rightarrow> json" where
  "lookup_present d [] phone = phone"
| "lookup_present d (f # fs) phone =
     (case map_of d f of Some v \<Rightarrow> v | None \<Rightarrow> lookup_present d fs phone)"

text \<open>
  The loop over the parents (lines 185-190). The \<open>break\<close> of line 190 leaves the inner loop
  only, so every parent of the list is visited and each one that is a dict holding one of
  the fields assigns \<open>phone\<close> again.
\<close>

fun lookup_parents :: "dict \<Rightarrow> pystr list \<Rightarrow> json \<Rightarrow> json" where
  "lookup_parents msg [] phone = phone"
| "lookup_parents msg (p # ps) phone =
     (case map_of msg p of
        Some (JObj d) \<Rightarrow> lookup_parents msg ps (lookup_present d parent_fields phone)
      | _ \<Rightarrow> lookup_parents msg ps phone)"

text \<open>The value of \<open>phone\<close> when line 192 is reached.\<close>

definition find_phone :: "dict \<Rightarrow> json" where
  "find_phone msg =
     (let phone = JNull;
          phone = lookup_fields msg possible_fields phone;
          phone = (if \<not> truthy phone then
                     (case map_of msg (U ''key'') of
                        Some (JObj key) \<Rightarrow> lookup_fields key key_fields phone
                      | _ \<Rightarrow> phone)
                   else phone);
          phone = (if \<not> truthy phone then lookup_parents msg parent_names phone else phone)
      in phone)"

text \<open>
  \<^verbatim>\<open>re.sub(r'@.*', '', phone)\<close>: every match of \<open>@.*\<close> is removed. The dot does not match a
  line feed, so a match runs from an \<open>@\<close> to the end of its line and the search goes on
  after it.
\<close>

function strip_at :: "pystr \<Rightarrow> pystr" where
  "strip_at [] = []"
| "strip_at (c # cs) =
     (if c = chr CHR ''@'' then strip_at (dropWhile (\<lambda>x. x \<noteq> 10) cs)
      else c # strip_at cs)"
  by pat_completeness auto
termination
  by (relation "measure length") (auto simp: length_dropWhile_le less_Suc_eq_le)

text \<open>
  \<^verbatim>\<open>re.sub(r'[^\d+]', '', phone)\<close>: every character that is neither matched by \<open>\d\<close> nor a
  \<open>+\<close> is removed. On a \<open>str\<close> pattern \<open>\d\<close> matches the decimal digits of Unicode; that
  table belongs to the interpreter, so it is the parameter \<open>dg\<close>.
\<close>

definition keep_digits_plus :: "(nat \<Rightarrow> bool) \<Rightarrow> pystr \<Rightarrow> pystr" where
  "keep_digits_plus dg s = filter (\<lambda>c. dg c \<or> c = chr CHR ''+'') s"

text \<open>Lines 192-202: the cleaning of the value found, \<open>None\<close> for every other outcome.\<close>

definition clean_phone :: "(nat \<Rightarrow> bool) \<Rightarrow> json \<Rightarrow> pystr option" where
  "clean_phone dg phone =
     (case phone of
        JStr s \<Rightarrow>
          if s \<noteq> [] then
            (let p = keep_digits_plus dg (strip_at s)
             in if 10 \<le> length p then Some p else None)
          else None
      | _ \<Rightarrow> None)"

definition extract_customer_phone :: "(nat \<Rightarrow> bool) \<Rightarrow> dict \<Rightarrow> pystr option" where
  "extract_customer_phone dg msg = clean_phone dg (find_phone msg)"

text \<open>The ASCII digits, on which every \<open>\d\<close> agrees; used for concrete runs.\<close>

definition ascii_digit :: "nat \<Rightarrow> bool" where
  "ascii_digit c = (48 \<le> c \<and> c \<le> 57)"

text \<open>
  The shape the specification gives a normalized phone: digits, optionally prefixed with
  one leading \<open>+\<close>.
\<close>

definition plus_then_digits :: "(nat \<Rightarrow> bool) \<Rightarrow> pystr \<Rightarrow> bool" where
  "plus_then_digits dg p =
     (case p of [] \<Rightarrow> True | c # cs \<Rightarrow> (c = chr CHR ''+'' \<or> dg c) \<and> list_all dg cs)"


section \<open>\<open>extract_id\<close> and \<open>extract_foreign_key\<close>\<close>

text \<open>
  \<open>str(v)\<close>: a string is returned as it is. The text Python prints for a value of another
  type is the interpreter's, so it is the parameter \<open>repr\<close>.
\<close>

definition py_str :: "(json \<Rightarrow> pystr) \<Rightarrow> json \<Rightarrow> pystr" where
  "py_str repr v = (case v of JStr s \<Rightarrow> s | _ \<Rightarrow> repr v)"

text \<open>\<^verbatim>\<open>isinstance(id_val, dict) and '$oid' in id_val\<close>, with the value of \<open>id_val['$oid']\<close>.\<close>

definition oid_of :: "json \<Rightarrow> json option" where
  "oid_of id_val = (case id_val of JObj d \<Rightarrow> map_of d (U ''$oid'') | _ \<Rightarrow> None)"

definition extract_id :: "(json \<Rightarrow> pystr) \<Rightarrow> dict \<Rightarrow> json" where
  "extract_id repr obj =
     (if obj = [] then JNull
      else case map_of obj (U ''_id'') of
        None \<Rightarrow> JNull
      | Some id_val \<Rightarrow>
          (case oid_of id_val of
             Some oid \<Rightarrow> oid
           | None \<Rightarrow> JStr (py_str repr id_val)))"

text \<open>The loop of lines 22-27: it returns at the first key that is present.\<close>

fun foreign_key_loop :: "(json \<Rightarrow> pystr) \<Rightarrow> dict \<Rightarrow> pystr list \<Rightarrow> json" where
  "foreign_key_loop repr obj [] = JNull"
| "foreign_key_loop repr obj (key # keys) =
     (case map_of obj key of
        Some id_val \<Rightarrow>
          (case oid_of id_val of
             Some oid \<Rightarrow> oid
           | None \<Rightarrow> if truthy id_val then JStr (py_str repr id_val) else JNull)
      | None \<Rightarrow> foreign_key_loop repr obj keys)"

definition extract_foreign_key :: "(json \<Rightarrow> pystr) \<Rightarrow> dict \<Rightarrow> pystr list \<Rightarrow> json" where
  "extract_foreign_key repr obj possible_keys =
     (if obj = [] then JNull else foreign_key_loop repr obj possible_keys)"

definition broadcast_keys :: "pystr list" where
  "broadcast_keys = [U ''broadCastId'', U ''broadcast_id'', U ''broadcast'']"

text \<open>Lines 387 and 398: the \<open>is_broadcast\<close> column.\<close>

definition is_broadcast_flag :: "(json \<Rightarrow> pystr) \<Rightarrow> dict \<Rightarrow> nat" where
  "is_broadcast_flag repr msg =
     (let broadcast_id = extract_foreign_key repr msg broadcast_keys
      in if truthy (py_or (dict_get msg (U ''isBroadCast'') (JBool False)) broadcast_id)
         then 1 else 0)"

text \<open>
  A stand-in for \<open>repr\<close> in concrete runs, which apply \<open>str\<close> to strings only. Like every
  text Python prints for a value, it is not empty.
\<close>

definition opaque_repr :: "json \<Rightarrow> pystr" where
  "opaque_repr v = U ''<value>''"

text \<open>
  For the statements about foreign keys: the value under the first of the keys that the
  object holds, and the identifier such a value stands for.
\<close>

definition first_present :: "dict \<Rightarrow> pystr list \<Rightarrow> json option" where
  "first_present obj keys =
     (case List.find (\<lambda>k. map_of obj k \<noteq> None) keys of
        None \<Rightarrow> None
      | Some k \<Rightarrow> map_of obj k)"

definition identifier_of :: "json \<Rightarrow> json" where
  "identifier_of v = (case oid_of v of Some oid \<Rightarrow> oid | None \<Rightarrow> v)"

section \<open>\<open>detect_sentiment\<close>\<close>

definition positive_words :: "pystr list" where
  "positive_words =
     [[1588, 1603, 1585, 1575], U ''thanks'', U ''great'', U ''excellent'',
      [1605, 1605, 1578, 1575, 1586], [1585, 1575, 1574, 1593], [1580, 1605, 1610, 1604],
      [1578, 1605, 1575, 1605], [1603, 1608, 1610, 1587], U ''good'', U ''nice'',
      U ''amazing'', U ''love'', U ''best'', U ''perfect'', U ''happy'',
      [1587, 1593, 1610, 1583], [1605, 1576, 1587, 1608, 1591], [1578, 1587, 1604, 1605],
      [1575, 1581, 1587, 1606], [1576, 1585, 1575, 1601, 1608]]"

definition negative_words :: "pystr list" where
  "negative_words =
     [[1587, 1610, 1569], U ''bad'', U ''terrible'', U ''awful'', U ''worst'', U ''hate'',
      [1605, 1588, 1603, 1604, 1577], [1586, 1593, 1604, 1575, 1606],
      [1594, 1590, 1576, 1575, 1606], [1605, 1588, 32, 1603, 1608, 1610, 1587],
      [1608, 1581, 1588], U ''problem'', U ''issue'', [1588, 1603, 1608, 1609],
      U ''disappointed'', [1601, 1575, 1588, 1604], [1605, 1578, 1571, 1582, 1585],
      U ''late'', U ''wrong'']"

text \<open>
  \<^verbatim>\<open>sum(1 for w in words if w in body_lower)\<close>: the number of entries of the list that occur
  in the text.
\<close>

definition count_hits :: "pystr list \<Rightarrow> pystr \<Rightarrow> nat" where
  "count_hits words body_lower = length (filter (\<lambda>w. sublist w body_lower) words)"

text \<open>
  \<open>str.lower\<close> is the interpreter's Unicode case mapping: the parameter \<open>lower\<close>.
\<close>

definition detect_sentiment :: "(json \<Rightarrow> pystr) \<Rightarrow> (pystr \<Rightarrow> pystr) \<Rightarrow> json \<Rightarrow> pystr" where
  "detect_sentiment repr lower body =
     (if \<not> truthy body then U ''Neutral''
      else
        (let body_lower = lower (py_str repr body);
             positive_count = count_hits positive_words body_lower;
             negative_count = count_hits negative_words body_lower
         in if positive_count > negative_count then U ''Positive''
            else if negative_count > positive_count then U ''Negative''
            else U ''Neutral''))"

text \<open>The lower-casing of the ASCII letters, with which \<open>str.lower\<close> agrees on ASCII text.\<close>

definition ascii_lower :: "pystr \<Rightarrow> pystr" where
  "ascii_lower s = map (\<lambda>c. if 65 \<le> c \<and> c \<le> 90 then c + 32 else c) s"

section \<open>\<open>parse_timestamp\<close>\<close>

text \<open>
  \<^verbatim>\<open>isinstance(v, (int, float))\<close>, with the number: \<open>bool\<close> is a subclass of \<open>int\<close>.
\<close>

fun number_of :: "json \<Rightarrow> real option" where
  "number_of (JInt n) = Some (real_of_int n)"
| "number_of (JFloat x) = Some x"
| "number_of (JBool b) = Some (if b then 1 else 0)"
| "number_of _ = None"

text \<open>
  Lines 41-43 and 45-47. \<open>datetime.fromtimestamp\<close> is the parameter \<open>ft\<close>, which gives the
  local time of the machine and is \<open>None\<close> where the library raises. The quotient is the
  exact one; Python rounds it to the nearest double.
\<close>

definition from_epoch :: "(real \<Rightarrow> 'dt option) \<Rightarrow> real \<Rightarrow> 'dt option" where
  "from_epoch ft v = (if v > 10 ^ 12 then ft (v / 1000) else ft v)"

text \<open>\<^verbatim>\<open>s.replace('Z', '+00:00')\<close>.\<close>

definition replace_Z :: "pystr \<Rightarrow> pystr" where
  "replace_Z s = concat (map (\<lambda>c. if c = chr CHR ''Z'' then U ''+00:00'' else [c]) s)"

text \<open>
  \<open>datetime.fromisoformat\<close> is the parameter \<open>fi\<close>. An exception of either library call is
  caught by the bare \<open>except\<close> of line 50 and the function returns \<open>None\<close>.
\<close>

definition parse_timestamp ::
  "(real \<Rightarrow> 'dt option) \<Rightarrow> (pystr \<Rightarrow> 'dt option) \<Rightarrow> json \<Rightarrow> 'dt option" where
  "parse_timestamp ft fi ts =
     (if \<not> truthy ts then None
      else case ts of
        JObj d \<Rightarrow>
          (case map_of d (U ''$date'') of
             None \<Rightarrow> None
           | Some date_val \<Rightarrow>
               (case date_val of
                  JStr s \<Rightarrow> fi (replace_Z s)
                | _ \<Rightarrow> (case number_of date_val of
                          Some v \<Rightarrow> from_epoch ft v
                        | None \<Rightarrow> None)))
      | JStr s \<Rightarrow> fi (replace_Z s)
      | _ \<Rightarrow> (case number_of ts of Some v \<Rightarrow> from_epoch ft v | None \<Rightarrow> None))"


text \<open>
  A clock for concrete runs: the datetime is kept as its number of seconds, and no text is
  accepted as an ISO date.
\<close>

definition seconds_clock :: "real \<Rightarrow> real option" where
  "seconds_clock x = Some x"

definition no_isoformat :: "pystr \<Rightarrow> real option" where
  "no_isoformat s = None"

section \<open>The row and the interpreter's part\<close>

text \<open>
  The columns of a row of \<open>messages\<close> that the statements below speak about, with the
  columns of the reference join. The other columns (\<open>type\<close>, \<open>status\<close>, \<open>word_count\<close>,
  \<open>has_question\<close>, \<open>has_emoji\<close>, \<open>has_link\<close>, \<open>category\<close>, \<open>urgency\<close>, \<open>intent\<close> and
  the further renderings of the timestamp) are computed from the message, the body and
  the timestamp by expressions that raise nothing, and are left out.
\<close>

record 'dt row =
  row_message_id :: json
  row_direction :: pystr
  row_body :: json
  row_body_length :: nat
  row_is_broadcast :: nat
  row_is_deleted :: nat
  row_is_group :: nat
  row_customer_phone :: "pystr option"
  row_instance_id :: json
  row_instance_name :: json
  row_company_id :: json
  row_company_name :: json
  row_sentiment :: pystr
  row_timestamp :: "'dt option"
  row_date :: "pystr option"
  row_hour :: "nat option"

text \<open>
  What \<open>cursor.executemany\<close> followed by \<open>conn.commit\<close> does to the store: the batch is
  committed, or an exception is raised; either way the store has a state afterwards.
\<close>

datatype 'db write_result = Committed 'db | Rejected 'db

text \<open>
  The library functions the loader calls. \<open>json_loads\<close> is \<open>None\<close> where \<open>json.loads\<close> raises;
  the buffer it is given starts with a brace, so a value it returns is a dict.
\<close>

record ('dt, 'db) runtime =
  json_loads :: "pystr \<Rightarrow> dict option"
  py_repr :: "json \<Rightarrow> pystr"
  str_lower :: "pystr \<Rightarrow> pystr"
  re_digit :: "nat \<Rightarrow> bool"
  fromtimestamp :: "real \<Rightarrow> 'dt option"
  fromisoformat :: "pystr \<Rightarrow> 'dt option"
  strftime_date :: "'dt \<Rightarrow> pystr"
  hour_of :: "'dt \<Rightarrow> nat"
  executemany_commit :: "'db \<Rightarrow> 'dt row list \<Rightarrow> 'db write_result"

section \<open>Enrichment of one message (lines 370-419)\<close>

text \<open>
  \<open>instances_dict\<close> and \<open>companies_dict\<close> are Python dicts from identifiers to objects.
  \<open>d.get(k)\<close> hashes the key first: a list or a dict raises \<open>TypeError\<close>, the \<open>None\<close> here.
\<close>

type_synonym refs = "json \<Rightarrow> dict option"

definition hashable :: "json \<Rightarrow> bool" where
  "hashable k = (case k of JArr xs \<Rightarrow> False | JObj d \<Rightarrow> False | _ \<Rightarrow> True)"

definition refs_get :: "refs \<Rightarrow> json \<Rightarrow> dict option option" where
  "refs_get d k = (if hashable k then Some (d k) else None)"

definition instance_keys :: "pystr list" where
  "instance_keys = [U ''instance'', U ''instanceId'', U ''instance_id'']"

definition company_keys :: "pystr list" where
  "company_keys = [U ''company'', U ''companyId'', U ''company_id'']"

text \<open>Lines 374-378: the company of the instance, \<open>None\<close> when the lookup raises.\<close>

definition resolve_company ::
  "(json \<Rightarrow> pystr) \<Rightarrow> refs \<Rightarrow> dict option \<Rightarrow> (json \<times> dict option) option" where
  "resolve_company repr companies_dict instance =
     (case instance of
        None \<Rightarrow> Some (JNull, None)
      | Some i \<Rightarrow>
          if i = [] then Some (JNull, None)
          else
            (let company_id = extract_foreign_key repr i company_keys
             in case refs_get companies_dict company_id of
                  None \<Rightarrow> None
                | Some company \<Rightarrow> Some (company_id, company)))"

text \<open>\<^verbatim>\<open>d.get('name', 'Unknown') if d else 'Unknown'\<close>.\<close>

definition name_of :: "dict option \<Rightarrow> json" where
  "name_of d =
     (case d of
        None \<Rightarrow> JStr (U ''Unknown'')
      | Some x \<Rightarrow> if x = [] then JStr (U ''Unknown'') else dict_get x (U ''name'') (JStr (U ''Unknown'')))"

definition flag :: "json \<Rightarrow> nat" where
  "flag v = (if truthy v then 1 else 0)"

text \<open>The row of a decoded message, \<open>None\<close> when an exception leaves the \<open>try\<close> block.\<close>

definition make_row :: "('dt, 'db) runtime \<Rightarrow> refs \<Rightarrow> refs \<Rightarrow> dict \<Rightarrow> 'dt row option" where
  "make_row rt instances_dict companies_dict msg =
     (let instance_id = extract_foreign_key (py_repr rt) msg instance_keys
      in case (if truthy instance_id then refs_get instances_dict instance_id else Some None) of
           None \<Rightarrow> None
         | Some instance \<Rightarrow>
             (case resolve_company (py_repr rt) companies_dict instance of
                None \<Rightarrow> None
              | Some (company_id, company) \<Rightarrow>
                  (let timestamp =
                         parse_timestamp (fromtimestamp rt) (fromisoformat rt)
                           (py_or (dict_get msg (U ''createdAt'') JNull)
                                  (dict_get msg (U ''timestamp'') JNull));
                       body = py_or (dict_get msg (U ''body'') (JStr [])) (JStr [])
                   in Some
                        \<lparr> row_message_id = extract_id (py_repr rt) msg,
                          row_direction =
                            (if truthy (dict_get msg (U ''fromMe'') (JBool False))
                             then U ''Outgoing'' else U ''Incoming''),
                          row_body = body,
                          row_body_length =
                            (if truthy body then length (py_str (py_repr rt) body) else 0),
                          row_is_broadcast = is_broadcast_flag (py_repr rt) msg,
                          row_is_deleted = flag (dict_get msg (U ''isDeleted'') (JBool False)),
                          row_is_group = flag (dict_get msg (U ''isGroup'') (JBool False)),
                          row_customer_phone = extract_customer_phone (re_digit rt) msg,
                          row_instance_id = instance_id,
                          row_instance_name = name_of instance,
                          row_company_id = company_id,
                          row_company_name = name_of company,
                          row_sentiment = detect_sentiment (py_repr rt) (str_lower rt) body,
                          row_timestamp = timestamp,
                          row_date = map_option (strftime_date rt) timestamp,
                          row_hour = map_option (hour_of rt) timestamp \<rparr>)))"

section \<open>The scanner loop of \<open>stream_load_messages\<close> (lines 327-450)\<close>

record scanner =
  buffer :: pystr
  brace_depth :: nat
  in_string :: bool
  escape_next :: bool

definition init_scanner :: scanner where
  "init_scanner = \<lparr> buffer = [], brace_depth = 0, in_string = False, escape_next = False \<rparr>"

text \<open>
  One turn of the loop from line 341 on, for a character that did not end the loop: the
  new state, and the buffer handed to \<open>json.loads\<close> when the character closes an object.
  \<open>brace_depth\<close> is decremented only where it is positive.
\<close>

definition scan_step :: "nat \<Rightarrow> scanner \<Rightarrow> scanner \<times> pystr option" where
  "scan_step c s =
     (if c = chr CHR ''{'' \<and> brace_depth s = 0 then
        (\<lparr> buffer = [c], brace_depth = 1, in_string = False, escape_next = False \<rparr>, None)
      else if brace_depth s > 0 then
        (let s = s\<lparr> buffer := buffer s @ [c] \<rparr>
         in if escape_next s then (s\<lparr> escape_next := False \<rparr>, None)
            else if c = chr CHR 0x5C \<and> in_string s then (s\<lparr> escape_next := True \<rparr>, None)
            else if c = chr CHR 0x22 then (s\<lparr> in_string := \<not> in_string s \<rparr>, None)
            else if \<not> in_string s then
              (if c = chr CHR ''{'' then (s\<lparr> brace_depth := brace_depth s + 1 \<rparr>, None)
               else if c = chr CHR ''}'' then
                 (let s = s\<lparr> brace_depth := brace_depth s - 1 \<rparr>
                  in if brace_depth s = 0 then (s\<lparr> buffer := [] \<rparr>, Some (buffer s))
                     else (s, None))
               else (s, None))
            else (s, None))
      else (s, None))"

text \<open>
  The loop of lines 332-450 over the characters that remain after the opening bracket. It
  ends at the end of the input and at a \<open>]\<close> read at depth 0. \<open>h\<close> is what the \<open>try\<close> block
  of lines 367-448 does with a complete buffer to the rest of the state.
\<close>

fun scan_loop :: "(pystr \<Rightarrow> 'k \<Rightarrow> 'k) \<Rightarrow> scanner \<Rightarrow> 'k \<Rightarrow> pystr \<Rightarrow> 'k" where
  "scan_loop h s k [] = k"
| "scan_loop h s k (c # cs) =
     (if c = chr CHR '']'' \<and> brace_depth s = 0 then k
      else
        (case scan_step c s of
           (s', None) \<Rightarrow> scan_loop h s' k cs
         | (s', Some b) \<Rightarrow> scan_loop h s' (h b k) cs))"

text \<open>Lines 318-324: the characters after the first \<open>[\<close>, \<open>None\<close> when there is none.\<close>

definition after_open_bracket :: "pystr \<Rightarrow> pystr option" where
  "after_open_bracket input =
     (case dropWhile (\<lambda>c. c \<noteq> chr CHR ''['') input of [] \<Rightarrow> None | c # rest \<Rightarrow> Some rest)"

text \<open>The buffers handed to \<open>json.loads\<close>, in order.\<close>

definition candidates :: "pystr \<Rightarrow> pystr list option" where
  "candidates input =
     map_option (scan_loop (\<lambda>b acc. acc @ [b]) init_scanner []) (after_open_bracket input)"

section \<open>Batches and the whole of \<open>stream_load_messages\<close>\<close>

record ('dt, 'db) sink =
  batch :: "'dt row list"
  total_messages :: nat
  store :: 'db

text \<open>
  The \<open>try\<close> block of lines 367-448 for one complete buffer. An exception raised in it,
  by \<open>json.loads\<close>, by the enrichment or by the write of the batch, is caught by line 445
  or 447 and the loop goes on; what was assigned before the exception stays assigned.
\<close>

definition on_candidate ::
  "('dt, 'db) runtime \<Rightarrow> refs \<Rightarrow> refs \<Rightarrow> nat \<Rightarrow> pystr \<Rightarrow> ('dt, 'db) sink \<Rightarrow> ('dt, 'db) sink" where
  "on_candidate rt instances_dict companies_dict batch_size b k =
     (case json_loads rt b of
        None \<Rightarrow> k
      | Some msg \<Rightarrow>
          (case make_row rt instances_dict companies_dict msg of
             None \<Rightarrow> k
           | Some r \<Rightarrow>
               (let k = k\<lparr> batch := batch k @ [r], total_messages := total_messages k + 1 \<rparr>
                in if length (batch k) \<ge> batch_size then
                     (case executemany_commit rt (store k) (batch k) of
                        Committed d \<Rightarrow> k\<lparr> batch := [], store := d \<rparr>
                      | Rejected d \<Rightarrow> k\<lparr> store := d \<rparr>)
                   else k)))"

text \<open>
  How the function ends: no array was found (prints that, returns 0); the loop and the
  last write went through (prints \<open>Loading complete!\<close>, returns the total); the last write
  raised, which the handler of line 474 catches (prints the error, returns 0). The elapsed
  time by which line 470 divides is taken to be positive.
\<close>

datatype outcome = NoArray | Completed nat | Failed

fun returned :: "outcome \<Rightarrow> nat" where
  "returned NoArray = 0"
| "returned (Completed n) = n"
| "returned Failed = 0"

text \<open>Lines 452-478: the write of the batch that remains.\<close>

definition insert_remaining :: "('dt, 'db) runtime \<Rightarrow> ('dt, 'db) sink \<Rightarrow> outcome \<times> 'db" where
  "insert_remaining rt k =
     (if batch k \<noteq> [] then
        (case executemany_commit rt (store k) (batch k) of
           Committed d \<Rightarrow> (Completed (total_messages k), d)
         | Rejected d \<Rightarrow> (Failed, d))
      else (Completed (total_messages k), store k))"

definition stream_load_messages ::
  "('dt, 'db) runtime \<Rightarrow> refs \<Rightarrow> refs \<Rightarrow> nat \<Rightarrow> 'db \<Rightarrow> pystr \<Rightarrow> outcome \<times> 'db" where
  "stream_load_messages rt instances_dict companies_dict batch_size db input =
     (case after_open_bracket input of
        None \<Rightarrow> (NoArray, db)
      | Some rest \<Rightarrow>
          insert_remaining rt
            (scan_loop (on_candidate rt instances_dict companies_dict batch_size) init_scanner
               \<lparr> batch = [], total_messages = 0, store = db \<rparr> rest))"

text \<open>
  Lines 595-600 of \<open>main\<close>: the value the loader returns is bound and not inspected, and the
  banner is printed after every run.
\<close>

definition main_banner :: "outcome \<Rightarrow> pystr" where
  "main_banner result = U ''DATABASE CREATED SUCCESSFULLY!''"

section \<open>Well-formed input of the scanner\<close>

text \<open>
  The text of a JSON object, seen as the scanner has to see it. Outside strings it is made
  of characters other than braces and quotes, of strings and of nested objects; a string
  is made of characters other than the quote and the backslash and of escapes, a backslash
  with the character after it. Every JSON object text, in any layout, has this shape.
\<close>

datatype sitem = Ch nat | Esc nat

datatype piece = Plain nat | Str "sitem list" | Obj "piece list"

fun render_sitem :: "sitem \<Rightarrow> pystr" where
  "render_sitem (Ch c) = [c]"
| "render_sitem (Esc c) = [chr CHR 0x5C, c]"

fun wf_sitem :: "sitem \<Rightarrow> bool" where
  "wf_sitem (Ch c) = (c \<noteq> chr CHR 0x22 \<and> c \<noteq> chr CHR 0x5C)"
| "wf_sitem (Esc c) = True"

fun render :: "piece \<Rightarrow> pystr" where
  "render (Plain c) = [c]"
| "render (Str items) = chr CHR 0x22 # concat (map render_sitem items) @ [chr CHR 0x22]"
| "render (Obj ps) = chr CHR ''{'' # concat (map render ps) @ [chr CHR ''}'']"

fun wf_piece :: "piece \<Rightarrow> bool" where
  "wf_piece (Plain c) = (c \<noteq> chr CHR ''{'' \<and> c \<noteq> chr CHR ''}'' \<and> c \<noteq> chr CHR 0x22)"
| "wf_piece (Str items) = list_all wf_sitem items"
| "wf_piece (Obj ps) = list_all wf_piece ps"

text \<open>
  What may stand between the elements of the top-level array: anything but an opening brace
  and a closing bracket (white space and commas in JSON).
\<close>

definition separator :: "pystr \<Rightarrow> bool" where
  "separator sep = list_all (\<lambda>c. c \<noteq> chr CHR ''{'' \<and> c \<noteq> chr CHR '']'') sep"

text \<open>
  An element of the top-level array: the separator before it and the pieces between its
  braces.
\<close>

type_synonym element = "pystr \<times> piece list"

definition element_text :: "element \<Rightarrow> pystr" where
  "element_text e = render (Obj (snd e))"

definition wf_element :: "element \<Rightarrow> bool" where
  "wf_element e = (separator (fst e) \<and> list_all wf_piece (snd e))"

text \<open>
  The input: a prefix without \<open>[\<close>, the bracket, the elements, a last separator, the
  closing bracket, and whatever follows.
\<close>

definition array_text :: "pystr \<Rightarrow> element list \<Rightarrow> pystr \<Rightarrow> pystr \<Rightarrow> pystr" where
  "array_text pre elems trail post =
     pre @ [chr CHR ''['']
       @ concat (map (\<lambda>e. fst e @ element_text e) elems)
       @ trail @ [chr CHR '']''] @ post"

definition wf_array :: "pystr \<Rightarrow> element list \<Rightarrow> pystr \<Rightarrow> bool" where
  "wf_array pre elems trail =
     (list_all (\<lambda>c. c \<noteq> chr CHR ''['') pre \<and> list_all wf_element elems \<and> separator trail)"


text \<open>
  A compact JSON text of a decoded value, as pieces: it shows that JSON texts have the
  shape above. A string escapes its quotes and backslashes; the text of a number is the
  parameter \<open>num\<close>.
\<close>

fun join :: "'a list \<Rightarrow> 'a list list \<Rightarrow> 'a list" where
  "join sep [] = []"
| "join sep [x] = x"
| "join sep (x # y # ys) = x @ sep @ join sep (y # ys)"

definition esc :: "nat \<Rightarrow> sitem" where
  "esc c = (if c = chr CHR 0x22 \<or> c = chr CHR 0x5C then Esc c else Ch c)"

fun json_pieces :: "(json \<Rightarrow> pystr) \<Rightarrow> json \<Rightarrow> piece list" where
  "json_pieces num JNull = map Plain (U ''null'')"
| "json_pieces num (JBool b) = map Plain (if b then U ''true'' else U ''false'')"
| "json_pieces num (JInt n) = map Plain (num (JInt n))"
| "json_pieces num (JFloat x) = map Plain (num (JFloat x))"
| "json_pieces num (JStr s) = [Str (map esc s)]"
| "json_pieces num (JArr xs) =
     Plain (chr CHR ''['') # join [Plain (chr CHR '','')] (map (json_pieces num) xs)
       @ [Plain (chr CHR '']'')]"
| "json_pieces num (JObj kvs) =
     [Obj (join [Plain (chr CHR '','')]
        (map (\<lambda>kv. Str (map esc (fst kv)) # Plain (chr CHR '':'') # json_pieces num (snd kv))
           kvs))]"

definition json_text :: "(json \<Rightarrow> pystr) \<Rightarrow> json \<Rightarrow> pystr" where
  "json_text num v = concat (map render (json_pieces num v))"

text \<open>The text of an array of objects, with a comma and a space between the elements.\<close>

definition json_array_text :: "(json \<Rightarrow> pystr) \<Rightarrow> dict list \<Rightarrow> pystr" where
  "json_array_text num ds =
     chr CHR ''['' # join (U '', '') (map (\<lambda>d. json_text num (JObj d)) ds) @ [chr CHR '']'']"

text \<open>What the text of a number is made of: no brace and no quote.\<close>

definition plain_text :: "pystr \<Rightarrow> bool" where
  "plain_text s =
     list_all (\<lambda>c. c \<noteq> chr CHR ''{'' \<and> c \<noteq> chr CHR ''}'' \<and> c \<noteq> chr CHR 0x22) s"

definition object_element :: "(json \<Rightarrow> pystr) \<Rightarrow> pystr \<Rightarrow> dict \<Rightarrow> element" where
  "object_element num sep d =
     (sep, join [Plain (chr CHR '','')]
        (map (\<lambda>kv. Str (map esc (fst kv)) # Plain (chr CHR '':'') # json_pieces num (snd kv))
           d))"

fun json_elements :: "(json \<Rightarrow> pystr) \<Rightarrow> dict list \<Rightarrow> element list" where
  "json_elements num [] = []"
| "json_elements num (d # ds) =
     object_element num [] d # map (object_element num (U '', '')) ds"

section \<open>Concrete runs\<close>

text \<open>
  The row the \<open>try\<close> block appends for a buffer, \<open>None\<close> when \<open>json.loads\<close> or the enrichment
  raises.
\<close>

definition enrich :: "('dt, 'db) runtime \<Rightarrow> refs \<Rightarrow> refs \<Rightarrow> pystr \<Rightarrow> 'dt row option" where
  "enrich rt instances_dict companies_dict b =
     Option.bind (json_loads rt b) (make_row rt instances_dict companies_dict)"

text \<open>A run without reference files: both dicts are empty.\<close>

definition no_refs :: refs where
  "no_refs k = None"

text \<open>\<open>json.loads\<close> on the object texts of the runs below; no other text is decoded.\<close>

definition example_loads :: "pystr \<Rightarrow> dict option" where
  \<open>example_loads =
     map_of
       [(U ''{"_id":"1"}'', [(U ''_id'', JStr (U ''1''))]),
        (U ''{"_id":"2"}'', [(U ''_id'', JStr (U ''2''))]),
        (U ''{"_id":"3","instance":{"$oid":[1]}}'',
           [(U ''_id'', JStr (U ''3'')),
            (U ''instance'', JObj [(U ''$oid'', JArr [JInt 1])])]),
        (U ''{"_id":"3"}'', [(U ''_id'', JStr (U ''3''))]),
        (U ''{"_id":"4"}'', [(U ''_id'', JStr (U ''4''))]),
        (U ''{"_id":"5"}'', [(U ''_id'', JStr (U ''5''))])]\<close>

text \<open>
  The interpreter of the concrete runs, over a store function. Its messages carry no
  timestamp, so the two renderings of a datetime are never called.
\<close>

definition example_runtime ::
  "('db \<Rightarrow> real row list \<Rightarrow> 'db write_result) \<Rightarrow> (real, 'db) runtime" where
  "example_runtime wr =
     \<lparr> json_loads = example_loads, py_repr = opaque_repr, str_lower = ascii_lower,
       re_digit = ascii_digit, fromtimestamp = seconds_clock, fromisoformat = no_isoformat,
       strftime_date = (\<lambda>t. []), hour_of = (\<lambda>t. 0), executemany_commit = wr \<rparr>"

text \<open>A store that commits every batch; its state is the list of the batches committed.\<close>

definition accepting :: "'r list list \<Rightarrow> 'r list \<Rightarrow> 'r list list write_result" where
  "accepting d b = Committed (d @ [b])"

text \<open>
  A store that raises on the first write it is asked for (a database locked at that moment)
  and commits every later one. Its state is the list of the batches committed and the list
  of the batches it was handed.
\<close>

definition locked_once ::
  "'r list list \<times> 'r list list \<Rightarrow> 'r list \<Rightarrow> ('r list list \<times> 'r list list) write_result" where
  "locked_once d b =
     (if snd d = [] then Rejected (fst d, [b])
      else Committed (fst d @ [b], snd d @ [b]))"

text \<open>A store that raises on every write.\<close>

definition rejecting :: "'db \<Rightarrow> 'r list \<Rightarrow> 'db write_result" where
  "rejecting d b = Rejected d"

text \<open>The row of the message \<^verbatim>\<open>{"_id": i}\<close> in a run without reference files.\<close>

definition example_row :: "pystr \<Rightarrow> real row" where
  "example_row i =
     \<lparr> row_message_id = JStr i, row_direction = U ''Incoming'', row_body = JStr [],
       row_body_length = 0, row_is_broadcast = 0, row_is_deleted = 0, row_is_group = 0,
       row_customer_phone = None, row_instance_id = JNull,
       row_instance_name = JStr (U ''Unknown''), row_company_id = JNull,
       row_company_name = JStr (U ''Unknown''), row_sentiment = U ''Neutral'',
       row_timestamp = None, row_date = None, row_hour = None \<rparr>"

text \<open>The element \<^verbatim>\<open>{"_id":"i"}\<close> after the separator \<open>sep\<close>.\<close>

definition id_element :: "pystr \<Rightarrow> pystr \<Rightarrow> element" where
  "id_element sep i =
     (sep, [Str (map Ch (U ''_id'')), Plain (chr CHR '':''), Str (map Ch i)])"

text \<open>
  Two elements with nesting, with braces and an escaped quote inside a string, and with a
  bracket inside an object:
  \<^verbatim>\<open>{"a":{"b":"}\"{"}}\<close> and \<^verbatim>\<open>{"c":[1]}\<close>.
\<close>

definition nested_elements :: "element list" where
  "nested_elements =
     [([], [Str [Ch (chr CHR ''a'')], Plain (chr CHR '':''),
            Obj [Str [Ch (chr CHR ''b'')], Plain (chr CHR '':''),
                 Str [Ch (chr CHR ''}''), Esc (chr CHR 0x22), Ch (chr CHR ''{'')]]]),
      (U '', '', [Str [Ch (chr CHR ''c'')], Plain (chr CHR '':''), Plain (chr CHR ''[''),
                 Plain (chr CHR ''1''), Plain (chr CHR '']'')])]"

text \<open>An element that is balanced and is not decoded: \<^verbatim>\<open>{nope}\<close>.\<close>

definition nope_element :: element where
  "nope_element = (U '','', map Plain (U ''nope''))"

section \<open>Properties of the phone extraction\<close>

lemma strip_at_no_at: "chr CHR ''@'' \<notin> set s \<Longrightarrow> strip_at s = s"
  by (induction s) auto

lemma strip_at_single_line:
  "10 \<notin> set s \<Longrightarrow> strip_at s = takeWhile (\<lambda>c. c \<noteq> chr CHR ''@'') s"
proof (induction s)
  case Nil
  then show ?case by simp
next
  case (Cons c cs)
  have dw: "dropWhile (\<lambda>x. x \<noteq> 10) cs = []"
    using Cons.prems by auto
  show ?case using Cons by (simp add: dw)
qed

lemma at_notin_strip_at: "chr CHR ''@'' \<notin> set (strip_at s)"
  by (induction s rule: strip_at.induct) auto

lemma clean_phone_shape:
  "clean_phone dg v = Some p \<Longrightarrow>
     10 \<le> length p \<and> (\<forall>c\<in>set p. dg c \<or> c = chr CHR ''+'') \<and> chr CHR ''@'' \<notin> set p"
  using at_notin_strip_at
  by (auto simp: clean_phone_def Let_def keep_digits_plus_def split: json.splits if_splits)

lemma clean_phone_fixpoint:
  assumes "clean_phone dg v = Some q"
  shows "clean_phone dg (JStr q) = Some q"
proof -
  from clean_phone_shape [OF assms]
  have len: "10 \<le> length q"
    and cs: "\<forall>c\<in>set q. dg c \<or> c = chr CHR ''+''"
    and noat: "chr CHR ''@'' \<notin> set q"
    by auto
  have "strip_at q = q"
    using noat by (rule strip_at_no_at)
  moreover have "keep_digits_plus dg q = q"
    using cs by (simp add: keep_digits_plus_def)
  moreover have "q \<noteq> []"
    using len by auto
  ultimately show ?thesis
    using len by (simp add: clean_phone_def)
qed

lemma find_phone_single:
  "f \<in> set possible_fields \<Longrightarrow> truthy v \<Longrightarrow> find_phone [(f, v)] = v"
  by (auto simp: find_phone_def possible_fields_def)

text \<open>
  C2. The claim: the first location yielding a non-empty value wins and no later location
  overrides it. On a message whose \<open>message\<close> and \<open>chat\<close> sub-objects both carry a
  \<open>jid\<close>, the function returns the one of \<open>chat\<close>, the later parent: the loop over
  the parents does not stop at the first value found.
\<close>

theorem extract_customer_phone_later_parent_overrides:
  "extract_customer_phone ascii_digit
     [(U ''message'', JObj [(U ''jid'', JStr (U ''201111111111@s.whatsapp.net''))]),
      (U ''chat'', JObj [(U ''jid'', JStr (U ''202222222222@s.whatsapp.net''))])]
   = Some (U ''202222222222'')"
  by (simp add: extract_customer_phone_def find_phone_def possible_fields_def key_fields_def
      parent_names_def parent_fields_def clean_phone_def keep_digits_plus_def ascii_digit_def)

text \<open>
  C3, as stated, fails: the value \<open>12345+67890\<close> is returned as it is, with a \<open>+\<close> that
  is not leading.
\<close>

theorem customer_phone_inner_plus_counterexample:
  "extract_customer_phone ascii_digit [(U ''phone'', JStr (U ''12345+67890''))]
     = Some (U ''12345+67890'')
   \<and> \<not> plus_then_digits ascii_digit (U ''12345+67890'')"
  by (simp add: extract_customer_phone_def find_phone_def possible_fields_def clean_phone_def
      keep_digits_plus_def ascii_digit_def plus_then_digits_def)

text \<open>
  C3, amended. A customer phone that is not null is at least ten characters long and
  consists only of digits and \<open>+\<close> characters, a \<open>+\<close> at any position. When the value
  found is a string without a line feed, the result is what remains of the text before the
  first \<open>@\<close> after every character that is neither a digit nor a \<open>+\<close> is removed, and it
  is null when fewer than ten characters remain; when the value found is not a string the
  result is null. No case is an error.
\<close>

theorem customer_phone_shape:
  "(extract_customer_phone dg msg = Some p \<longrightarrow>
      10 \<le> length p \<and> (\<forall>c\<in>set p. dg c \<or> c = chr CHR ''+''))
   \<and> (find_phone msg = JStr s \<and> 10 \<notin> set s \<longrightarrow>
      extract_customer_phone dg msg =
        (let p' = filter (\<lambda>c. dg c \<or> c = chr CHR ''+'') (takeWhile (\<lambda>c. c \<noteq> chr CHR ''@'') s)
         in if 10 \<le> length p' then Some p' else None))
   \<and> ((\<forall>t. find_phone msg \<noteq> JStr t) \<longrightarrow> extract_customer_phone dg msg = None)"
proof -
  have shape: "extract_customer_phone dg msg = Some p \<longrightarrow>
      10 \<le> length p \<and> (\<forall>c\<in>set p. dg c \<or> c = chr CHR ''+'')"
    using clean_phone_shape [of dg "find_phone msg" p]
    by (simp add: extract_customer_phone_def)
  have line: "find_phone msg = JStr s \<and> 10 \<notin> set s \<longrightarrow>
      extract_customer_phone dg msg =
        (let p' = filter (\<lambda>c. dg c \<or> c = chr CHR ''+'') (takeWhile (\<lambda>c. c \<noteq> chr CHR ''@'') s)
         in if 10 \<le> length p' then Some p' else None)"
  proof
    assume a: "find_phone msg = JStr s \<and> 10 \<notin> set s"
    then have "strip_at s = takeWhile (\<lambda>c. c \<noteq> chr CHR ''@'') s"
      by (simp add: strip_at_single_line)
    then show "extract_customer_phone dg msg =
        (let p' = filter (\<lambda>c. dg c \<or> c = chr CHR ''+'') (takeWhile (\<lambda>c. c \<noteq> chr CHR ''@'') s)
         in if 10 \<le> length p' then Some p' else None)"
      using a
      by (cases "s = []")
         (simp_all add: extract_customer_phone_def clean_phone_def keep_digits_plus_def)
  qed
  have other: "(\<forall>t. find_phone msg \<noteq> JStr t) \<longrightarrow> extract_customer_phone dg msg = None"
    by (cases "find_phone msg") (simp_all add: extract_customer_phone_def clean_phone_def)
  from shape line other show ?thesis
    by blast
qed

theorem customer_phone_shape_witness:
  "extract_customer_phone ascii_digit
      [(U ''from'', JStr (U ''+20 100 123-4567@s.whatsapp.net''))] = Some (U ''+201001234567'')
   \<and> find_phone [(U ''from'', JStr (U ''+20 100 123-4567@s.whatsapp.net''))]
       = JStr (U ''+20 100 123-4567@s.whatsapp.net'')
   \<and> 10 \<notin> set (U ''+20 100 123-4567@s.whatsapp.net'')
   \<and> 10 \<le> length (U ''+201001234567'')
   \<and> list_all (\<lambda>c. ascii_digit c \<or> c = chr CHR ''+'') (U ''+201001234567'')
   \<and> (\<forall>t. find_phone [(U ''from'', JInt 5)] \<noteq> JStr t)
   \<and> extract_customer_phone ascii_digit [(U ''from'', JInt 5)] = None"
proof -
  let ?m = "[(U ''from'', JStr (U ''+20 100 123-4567@s.whatsapp.net''))]"
  have f: "find_phone ?m = JStr (U ''+20 100 123-4567@s.whatsapp.net'')"
    by (simp add: find_phone_def possible_fields_def)
  have n: "10 \<notin> set (U ''+20 100 123-4567@s.whatsapp.net'')"
    by simp
  have e: "extract_customer_phone ascii_digit ?m = Some (U ''+201001234567'')"
    using f n
      customer_phone_shape [of ascii_digit ?m "U ''+201001234567''" "U ''+20 100 123-4567@s.whatsapp.net''"]
    by (simp add: ascii_digit_def)
  have g: "find_phone [(U ''from'', JInt 5)] = JInt 5"
    by (simp add: find_phone_def possible_fields_def)
  have h: "\<forall>t. find_phone [(U ''from'', JInt 5)] \<noteq> JStr t"
    unfolding g by simp
  show ?thesis
    using e f n h
      customer_phone_shape [of ascii_digit ?m "U ''+201001234567''" "U ''+20 100 123-4567@s.whatsapp.net''"]
      customer_phone_shape [of ascii_digit "[(U ''from'', JInt 5)]"]
    by simp
qed

text \<open>
  C9. Phone normalization is idempotent: a string that the cleaning step has produced is
  returned unchanged when it is cleaned again, and when it is extracted again from a message
  that carries it in one of the top-level fields.
\<close>

theorem phone_normalization_idempotent:
  assumes "clean_phone dg v = Some q"
  shows "clean_phone dg (JStr q) = Some q
     \<and> (\<forall>f\<in>set possible_fields. extract_customer_phone dg [(f, JStr q)] = Some q)"
proof -
  have again: "clean_phone dg (JStr q) = Some q"
    using assms by (rule clean_phone_fixpoint)
  have ne: "truthy (JStr q)"
    using clean_phone_shape [OF assms] by auto
  show ?thesis
    using again find_phone_single [OF _ ne]
    by (simp add: extract_customer_phone_def)
qed

theorem phone_normalization_idempotent_witness:
  "clean_phone ascii_digit (JStr (U ''+20 (100) 123-4567@c.us'')) = Some (U ''+201001234567'')
   \<and> clean_phone ascii_digit (JStr (U ''+201001234567'')) = Some (U ''+201001234567'')
   \<and> extract_customer_phone ascii_digit [(U ''remoteJid'', JStr (U ''+201001234567''))]
       = Some (U ''+201001234567'')"
proof -
  have h: "clean_phone ascii_digit (JStr (U ''+20 (100) 123-4567@c.us'')) = Some (U ''+201001234567'')"
    by (simp add: clean_phone_def keep_digits_plus_def ascii_digit_def)
  show ?thesis
    using h phone_normalization_idempotent [OF h]
    by (simp add: possible_fields_def)
qed

section \<open>Properties of the foreign keys, the sentiment and the timestamp\<close>

lemma truthy_foreign_key_loop:
  assumes "\<And>v. repr v \<noteq> []"
  shows "truthy (foreign_key_loop repr obj keys) =
     (case first_present obj keys of None \<Rightarrow> False | Some v \<Rightarrow> truthy (identifier_of v))"
proof (induction keys)
  case Nil
  then show ?case by (simp add: first_present_def)
next
  case (Cons k ks)
  show ?case
  proof (cases "map_of obj k")
    case None
    then show ?thesis using Cons by (simp add: first_present_def)
  next
    case (Some v)
    have "truthy (JStr (py_str repr v))" if "truthy v"
      using that assms by (cases v) (auto simp: py_str_def)
    then show ?thesis using Some
      by (auto simp: first_present_def identifier_of_def split: option.splits)
  qed
qed

lemma first_present_empty: "first_present [] keys = None"
  by (induction keys) (auto simp: first_present_def)

lemma truthy_extract_foreign_key:
  assumes "\<And>v. repr v \<noteq> []"
  shows "truthy (extract_foreign_key repr obj keys) =
     (case first_present obj keys of None \<Rightarrow> False | Some v \<Rightarrow> truthy (identifier_of v))"
  using truthy_foreign_key_loop [OF assms]
  by (simp add: extract_foreign_key_def first_present_empty)

text \<open>
  C10, as stated, fails: the record \<^verbatim>\<open>{"broadCastId": {"$oid": ""}}\<close> yields the identifier
  \<open>''\<close>, which is not null, and its flag is 0.
\<close>

theorem is_broadcast_empty_oid_counterexample:
  "extract_foreign_key opaque_repr [(U ''broadCastId'', JObj [(U ''$oid'', JStr [])])]
       broadcast_keys = JStr []
   \<and> JStr [] \<noteq> JNull
   \<and> is_broadcast_flag opaque_repr [(U ''broadCastId'', JObj [(U ''$oid'', JStr [])])] = 0"
  by (simp add: extract_foreign_key_def broadcast_keys_def oid_of_def is_broadcast_flag_def
      py_or_def dict_get_def)

text \<open>
  C10, amended. The \<open>is_broadcast\<close> flag is 1 exactly when \<open>isBroadCast\<close> is truthy or the
  first of the fields \<open>broadCastId\<close>, \<open>broadcast_id\<close>, \<open>broadcast\<close> that the record holds
  carries a truthy identifier (its \<open>$oid\<close> when it is wrapped, the value itself otherwise),
  and it is 0 otherwise. In particular a record without \<open>isBroadCast\<close> whose \<open>broadCastId\<close>
  is a truthy identifier is marked as broadcast.
\<close>

theorem is_broadcast_iff:
  assumes "\<And>v. repr v \<noteq> []"
  shows "is_broadcast_flag repr msg =
       (if truthy (dict_get msg (U ''isBroadCast'') (JBool False))
           \<or> (case first_present msg broadcast_keys of
                 None \<Rightarrow> False
               | Some v \<Rightarrow> truthy (identifier_of v))
        then 1 else 0)
     \<and> (map_of msg (U ''isBroadCast'') = None \<and> map_of msg (U ''broadCastId'') = Some w
          \<and> truthy (identifier_of w) \<longrightarrow> is_broadcast_flag repr msg = 1)"
proof -
  have eq: "is_broadcast_flag repr msg =
       (if truthy (dict_get msg (U ''isBroadCast'') (JBool False))
           \<or> (case first_present msg broadcast_keys of
                 None \<Rightarrow> False
               | Some v \<Rightarrow> truthy (identifier_of v))
        then 1 else 0)"
    using truthy_extract_foreign_key [OF assms, where obj = msg and keys = broadcast_keys]
    by (simp add: is_broadcast_flag_def py_or_def Let_def)
  have "is_broadcast_flag repr msg = 1"
    if "map_of msg (U ''isBroadCast'') = None" "map_of msg (U ''broadCastId'') = Some w"
      "truthy (identifier_of w)"
    using that unfolding eq by (simp add: first_present_def broadcast_keys_def)
  with eq show ?thesis by blast
qed

theorem is_broadcast_iff_witness:
  "(\<forall>v. opaque_repr v \<noteq> [])
   \<and> map_of [(U ''broadCastId'', JStr (U ''b1''))] (U ''isBroadCast'') = None
   \<and> map_of [(U ''broadCastId'', JStr (U ''b1''))] (U ''broadCastId'') = Some (JStr (U ''b1''))
   \<and> truthy (identifier_of (JStr (U ''b1'')))
   \<and> is_broadcast_flag opaque_repr [(U ''broadCastId'', JStr (U ''b1''))] = 1"
proof -
  have r: "\<And>v. opaque_repr v \<noteq> []"
    by (simp add: opaque_repr_def)
  have t: "truthy (identifier_of (JStr (U ''b1'')))"
    by (simp add: identifier_of_def oid_of_def)
  show ?thesis
    using r t
      is_broadcast_iff [where repr = opaque_repr and msg = "[(U ''broadCastId'', JStr (U ''b1''))]"
        and w = "JStr (U ''b1'')", OF r]
    by (simp add: first_present_def broadcast_keys_def dict_get_def)
qed

lemma distinct_positive_words: "distinct positive_words"
  by (simp add: positive_words_def)

lemma distinct_negative_words: "distinct negative_words"
  by (simp add: negative_words_def)

lemma count_hits_card:
  "distinct ws \<Longrightarrow> count_hits ws t = card {w \<in> set ws. sublist w t}"
  by (simp add: count_hits_def distinct_length_filter Int_def conj_commute)

text \<open>
  C4. For a body text, the classifier compares the number of positive keywords that occur
  in the lower-cased body with the number of negative keywords that occur in it: the
  strictly greater number gives the label, equal numbers give \<open>Neutral\<close>, and so does the
  empty body.
\<close>

theorem sentiment_by_counts:
  "detect_sentiment repr lower (JStr s) =
     (let p = card {w \<in> set positive_words. sublist w (lower s)};
          n = card {w \<in> set negative_words. sublist w (lower s)}
      in if s = [] then U ''Neutral''
         else if p > n then U ''Positive''
         else if n > p then U ''Negative''
         else U ''Neutral'')"
  by (simp add: detect_sentiment_def py_str_def Let_def count_hits_card
      distinct_positive_words distinct_negative_words)

lemma sentiment_example:
  "detect_sentiment opaque_repr ascii_lower (JStr (U ''thanks, great!'')) = U ''Positive''"
  by (simp add: detect_sentiment_def py_str_def Let_def count_hits_def positive_words_def
      negative_words_def ascii_lower_def sublist_Cons_right)

lemma parse_epoch_seconds: "parse_timestamp ft fi (JInt 1700000000) = ft 1700000000"
  by (simp add: parse_timestamp_def from_epoch_def)

lemma parse_epoch_milliseconds: "parse_timestamp ft fi (JInt 1700000000000) = ft 1700000000"
  by (simp add: parse_timestamp_def from_epoch_def)

text \<open>
  C6, as stated, fails: the numeric epoch 0 is not above \<open>1e12\<close>, yet it is not decoded as
  seconds; line 32 returns \<open>None\<close> for it.
\<close>

theorem epoch_zero_counterexample:
  "number_of (JInt 0) = Some 0
   \<and> from_epoch seconds_clock 0 = Some 0
   \<and> parse_timestamp seconds_clock no_isoformat (JInt 0) = None"
  by (simp add: parse_timestamp_def from_epoch_def seconds_clock_def)

text \<open>
  C6, amended. A numeric epoch other than a bare zero is decoded as milliseconds when it
  is strictly above \<open>1e12\<close> and as seconds otherwise: a bare number when it is not zero, a
  number under \<open>$date\<close> always; a bare zero, like every falsy value, gives no timestamp. So \<open>1700000000\<close> and \<open>1700000000000\<close> decode to the same
  datetime, and the rows of two messages created at these two values have the same date
  and the same hour.
\<close>

theorem epoch_disambiguation:
  "(number_of v = Some x \<and> truthy v \<longrightarrow>
      parse_timestamp ft fi v = (if x > 10 ^ 12 then ft (x / 1000) else ft x))
   \<and> (\<not> truthy v \<longrightarrow> parse_timestamp ft fi v = None)
   \<and> (map_of d (U ''$date'') = Some v \<and> number_of v = Some x \<longrightarrow>
      parse_timestamp ft fi (JObj d) = (if x > 10 ^ 12 then ft (x / 1000) else ft x))
   \<and> parse_timestamp ft fi (JInt 1700000000) = ft 1700000000
   \<and> parse_timestamp ft fi (JInt 1700000000000) = ft 1700000000
   \<and> map_option (\<lambda>r. (row_date r, row_hour r))
        (make_row rt idict cdict [(U ''createdAt'', JInt 1700000000)])
     = map_option (\<lambda>r. (row_date r, row_hour r))
        (make_row rt idict cdict [(U ''createdAt'', JInt 1700000000000)])"
proof -
  have bare: "number_of v = Some x \<and> truthy v \<longrightarrow>
      parse_timestamp ft fi v = (if x > 10 ^ 12 then ft (x / 1000) else ft x)"
    by (cases v) (auto simp: parse_timestamp_def from_epoch_def)
  have wrapped: "map_of d (U ''$date'') = Some v \<and> number_of v = Some x \<longrightarrow>
      parse_timestamp ft fi (JObj d) = (if x > 10 ^ 12 then ft (x / 1000) else ft x)"
    by (cases v) (auto simp: parse_timestamp_def from_epoch_def)
  have falsy: "\<not> truthy v \<longrightarrow> parse_timestamp ft fi v = None"
    by (simp add: parse_timestamp_def)
  note s = parse_epoch_seconds [of ft fi] and ms = parse_epoch_milliseconds [of ft fi]
  have rows: "map_option (\<lambda>r. (row_date r, row_hour r))
        (make_row rt idict cdict [(U ''createdAt'', JInt 1700000000)])
     = map_option (\<lambda>r. (row_date r, row_hour r))
        (make_row rt idict cdict [(U ''createdAt'', JInt 1700000000000)])"
    by (simp add: make_row_def extract_foreign_key_def instance_keys_def resolve_company_def
        py_or_def dict_get_def Let_def parse_epoch_seconds parse_epoch_milliseconds)
  from bare falsy wrapped s ms rows show ?thesis
    by blast
qed

theorem epoch_disambiguation_witness:
  "number_of (JInt 1700000000000) = Some 1700000000000
   \<and> truthy (JInt 1700000000000)
   \<and> parse_timestamp seconds_clock no_isoformat (JInt 1700000000000) = Some 1700000000
   \<and> map_of [(U ''$date'', JInt 1700000000)] (U ''$date'') = Some (JInt 1700000000)
   \<and> number_of (JInt 1700000000) = Some 1700000000
   \<and> parse_timestamp seconds_clock no_isoformat (JObj [(U ''$date'', JInt 1700000000)])
       = Some 1700000000
   \<and> \<not> truthy (JFloat 0)
   \<and> parse_timestamp seconds_clock no_isoformat (JFloat 0) = None"
  using
    epoch_disambiguation [where v = "JFloat 0" and x = 0
      and ft = seconds_clock and fi = no_isoformat and d = "[(U ''$date'', JInt 1700000000)]"
      and rt = "example_runtime accepting" and idict = no_refs and cdict = no_refs]
    epoch_disambiguation [where v = "JInt 1700000000000" and x = 1700000000000
      and ft = seconds_clock and fi = no_isoformat and d = "[(U ''$date'', JInt 1700000000000)]"
      and rt = "example_runtime accepting" and idict = no_refs and cdict = no_refs]
    epoch_disambiguation [where v = "JInt 1700000000" and x = 1700000000
      and ft = seconds_clock and fi = no_isoformat and d = "[(U ''$date'', JInt 1700000000)]"
      and rt = "example_runtime accepting" and idict = no_refs and cdict = no_refs]
  by (simp add: seconds_clock_def)

section \<open>Properties of the scanner\<close>

lemma string_items:
  "list_all wf_sitem items \<Longrightarrow>
   scan_loop h \<lparr>buffer = b, brace_depth = Suc d, in_string = True, escape_next = False\<rparr> k
       (concat (map render_sitem items) @ rest)
   = scan_loop h \<lparr>buffer = b @ concat (map render_sitem items), brace_depth = Suc d,
                   in_string = True, escape_next = False\<rparr> k rest"
proof (induction items arbitrary: b)
  case Nil
  then show ?case by simp
next
  case (Cons i items)
  show ?case
  proof (cases i)
    case (Ch c)
    with Cons.prems have c: "c \<noteq> 34" "c \<noteq> 92" and rest: "list_all wf_sitem items" by auto
    show ?thesis using c Cons.IH[OF rest, of "b @ [c]"] Ch
      by (simp add: scan_step_def)
  next
    case (Esc c)
    with Cons.prems have rest: "list_all wf_sitem items" by auto
    show ?thesis using Cons.IH[OF rest, of "b @ [92, c]"] Esc
      by (simp add: scan_step_def)
  qed
qed

lemma pieces_of_IH:
  assumes IH: "\<And>p b d rest. p \<in> set ps \<Longrightarrow> wf_piece p \<Longrightarrow>
      scan_loop h \<lparr>buffer = b, brace_depth = Suc d, in_string = False, escape_next = False\<rparr> k
          (render p @ rest)
      = scan_loop h \<lparr>buffer = b @ render p, brace_depth = Suc d, in_string = False,
                      escape_next = False\<rparr> k rest"
    and wf: "list_all wf_piece ps"
  shows "scan_loop h \<lparr>buffer = b, brace_depth = Suc d, in_string = False, escape_next = False\<rparr> k
          (concat (map render ps) @ rest)
      = scan_loop h \<lparr>buffer = b @ concat (map render ps), brace_depth = Suc d, in_string = False,
                      escape_next = False\<rparr> k rest"
  using assms
proof (induction ps arbitrary: b)
  case Nil
  then show ?case by simp
next
  case (Cons p ps)
  have 1: "scan_loop h \<lparr>buffer = b, brace_depth = Suc d, in_string = False, escape_next = False\<rparr> k
          (render p @ (concat (map render ps) @ rest))
      = scan_loop h \<lparr>buffer = b @ render p, brace_depth = Suc d, in_string = False,
                      escape_next = False\<rparr> k (concat (map render ps) @ rest)"
    using Cons.prems by simp
  have 2: "scan_loop h \<lparr>buffer = b @ render p, brace_depth = Suc d, in_string = False, escape_next = False\<rparr> k
          (concat (map render ps) @ rest)
      = scan_loop h \<lparr>buffer = (b @ render p) @ concat (map render ps), brace_depth = Suc d, in_string = False,
                      escape_next = False\<rparr> k rest"
    using Cons.prems by (intro Cons.IH) auto
  show ?case using 1 2 by simp
qed

lemma piece_inside:
  "wf_piece p \<Longrightarrow>
   scan_loop h \<lparr>buffer = b, brace_depth = Suc d, in_string = False, escape_next = False\<rparr> k
       (render p @ rest)
   = scan_loop h \<lparr>buffer = b @ render p, brace_depth = Suc d, in_string = False,
                   escape_next = False\<rparr> k rest"
proof (induction p arbitrary: b d rest)
  case (Plain c)
  then show ?case by (simp add: scan_step_def)
next
  case (Str items)
  then have wf: "list_all wf_sitem items" by simp
  show ?case
    using string_items[OF wf, of h "b @ [34]" d k "34 # rest"]
    by (simp add: scan_step_def)
next
  case (Obj ps)
  then have wf: "list_all wf_piece ps" by simp
  have inner: "scan_loop h \<lparr>buffer = b @ [123], brace_depth = Suc (Suc d), in_string = False, escape_next = False\<rparr> k
          (concat (map render ps) @ (125 # rest))
      = scan_loop h \<lparr>buffer = (b @ [123]) @ concat (map render ps), brace_depth = Suc (Suc d), in_string = False,
                      escape_next = False\<rparr> k (125 # rest)"
    by (rule pieces_of_IH[OF _ wf]) (rule Obj.IH)
  show ?case using inner by (simp add: scan_step_def)
qed

lemma pieces_inside:
  "list_all wf_piece ps \<Longrightarrow>
   scan_loop h \<lparr>buffer = b, brace_depth = Suc d, in_string = False, escape_next = False\<rparr> k
          (concat (map render ps) @ rest)
      = scan_loop h \<lparr>buffer = b @ concat (map render ps), brace_depth = Suc d, in_string = False,
                      escape_next = False\<rparr> k rest"
  by (rule pieces_of_IH) (auto intro: piece_inside)

lemma separator_skipped:
  "separator sep \<Longrightarrow> scan_loop h init_scanner k (sep @ rest) = scan_loop h init_scanner k rest"
  by (induction sep) (auto simp: separator_def scan_step_def init_scanner_def)

lemma top_level_object:
  assumes "list_all wf_piece ps"
  shows "scan_loop h init_scanner k (render (Obj ps) @ rest)
     = scan_loop h init_scanner (h (render (Obj ps)) k) rest"
  using pieces_inside[OF assms, of h "[123]" 0 k "125 # rest"]
  by (simp add: scan_step_def init_scanner_def)

lemma element_scanned:
  "wf_element e \<Longrightarrow> scan_loop h init_scanner k ((fst e @ element_text e) @ rest)
     = scan_loop h init_scanner (h (element_text e) k) rest"
  by (simp add: wf_element_def element_text_def separator_skipped top_level_object del: render.simps)

lemma elements_scanned:
  "list_all wf_element elems \<Longrightarrow>
   scan_loop h init_scanner k (concat (map (\<lambda>e. fst e @ element_text e) elems) @ rest)
     = scan_loop h init_scanner (fold (\<lambda>e. h (element_text e)) elems k) rest"
proof (induction elems arbitrary: k)
  case Nil
  then show ?case by simp
next
  case (Cons e es)
  then have e: "wf_element e" and es: "list_all wf_element es" by auto
  show ?case using element_scanned[OF e, of h k "concat (map (\<lambda>e. fst e @ element_text e) es) @ rest"] Cons.IH[OF es]
    by simp
qed

lemma closing_bracket: "scan_loop h init_scanner k (93 # post) = k"
  by (simp add: init_scanner_def)

lemma after_open_bracket_array:
  "list_all (\<lambda>c. c \<noteq> chr CHR ''['') pre \<Longrightarrow> after_open_bracket (pre @ chr CHR ''['' # rest) = Some rest"
  by (induction pre) (auto simp: after_open_bracket_def)

lemma scan_array:
  assumes "wf_array pre elems trail"
  shows "map_option (scan_loop h init_scanner k) (after_open_bracket (array_text pre elems trail post))
     = Some (fold (\<lambda>e. h (element_text e)) elems k)"
proof -
  from assms have pre: "list_all (\<lambda>c. c \<noteq> chr CHR ''['') pre" and es: "list_all wf_element elems"
    and tr: "separator trail" by (auto simp: wf_array_def)
  have "after_open_bracket (array_text pre elems trail post)
     = Some (concat (map (\<lambda>e. fst e @ element_text e) elems) @ trail @ [chr CHR '']''] @ post)"
    using after_open_bracket_array[OF pre] by (simp add: array_text_def)
  moreover have "scan_loop h init_scanner k (concat (map (\<lambda>e. fst e @ element_text e) elems) @ trail @ [chr CHR '']''] @ post)
     = fold (\<lambda>e. h (element_text e)) elems k"
  proof -
    have "scan_loop h init_scanner k (concat (map (\<lambda>e. fst e @ element_text e) elems) @ trail @ [chr CHR '']''] @ post)
       = scan_loop h init_scanner (fold (\<lambda>e. h (element_text e)) elems k) (trail @ [chr CHR '']''] @ post)"
      by (rule elements_scanned[OF es])
    also have "\<dots> = scan_loop h init_scanner (fold (\<lambda>e. h (element_text e)) elems k) ([chr CHR '']''] @ post)"
      by (rule separator_skipped[OF tr])
    also have "\<dots> = fold (\<lambda>e. h (element_text e)) elems k"
      by (simp add: init_scanner_def)
    finally show ?thesis .
  qed
  ultimately show ?thesis by simp
qed

lemma fold_collect: "fold (\<lambda>e acc. acc @ [f e]) es acc = acc @ map f es"
  by (induction es arbitrary: acc) auto

text \<open>
  C1. For a well-formed input (a prefix without an opening bracket, the array of elements,
  each a balanced object after a separator, and the closing bracket), the buffers handed to
  \<open>json.loads\<close> are the texts of the elements, one per element and in order, whatever the
  nesting depth of an element and whatever braces, quotes and escapes its strings hold.
\<close>

theorem scanner_one_candidate_per_element:
  assumes "wf_array pre elems trail"
  shows "candidates (array_text pre elems trail post) = Some (map element_text elems)"
  using scan_array [OF assms, of "\<lambda>b acc. acc @ [b]" "[]" post]
  by (simp add: candidates_def fold_collect)

theorem scanner_one_candidate_per_element_witness:
  \<open>wf_array (U '' '') nested_elements [] \<and>
   array_text (U '' '') nested_elements [] (U ''tail'')
     = U '' [{"a":{"b":"}'' @ [chr CHR 0x5C] @ U ''"{"}}, {"c":[1]}]tail'' \<and>
   candidates (array_text (U '' '') nested_elements [] (U ''tail''))
     = Some [U ''{"a":{"b":"}'' @ [chr CHR 0x5C] @ U ''"{"}}'', U ''{"c":[1]}'']\<close>
proof -
  have w: "wf_array (U '' '') nested_elements []"
    by (simp add: wf_array_def wf_element_def separator_def nested_elements_def)
  show ?thesis
    using w scanner_one_candidate_per_element [OF w, of "U ''tail''"]
    by (simp add: array_text_def element_text_def nested_elements_def)
qed

subsection \<open>JSON texts are well-formed input\<close>

lemma list_all_join:
  "list_all P sep \<Longrightarrow> (\<forall>x\<in>set xss. list_all P x) \<Longrightarrow> list_all P (join sep xss)"
  by (induction sep xss rule: join.induct) auto

lemma wf_esc: "list_all wf_sitem (map esc s)"
  by (induction s) (auto simp: esc_def)

lemma wf_plain: "plain_text s \<Longrightarrow> list_all wf_piece (map Plain s)"
  by (induction s) (auto simp: plain_text_def)

lemma wf_json_pieces:
  assumes "\<And>v. plain_text (num v)"
  shows "list_all wf_piece (json_pieces num v)"
  using assms
proof (induction num v rule: json_pieces.induct)
  case (6 num xs)
  have "list_all wf_piece (join [Plain (chr CHR '','')] (map (json_pieces num) xs))"
    using 6 by (intro list_all_join) auto
  then show ?case by simp
next
  case (7 num kvs)
  have "list_all wf_piece (join [Plain (chr CHR '','')]
        (map (\<lambda>kv. Str (map esc (fst kv)) # Plain (chr CHR '':'') # json_pieces num (snd kv)) kvs))"
    using 7 by (intro list_all_join) (auto simp: wf_esc)
  then show ?case by simp
qed (simp_all add: wf_plain wf_esc plain_text_def)

lemma join_Cons: "join sep (x # xs) = x @ concat (map (\<lambda>y. sep @ y) xs)"
  by (induction sep xs arbitrary: x rule: join.induct) auto

lemma json_object_pieces: "\<exists>ps. json_pieces num (JObj d) = [Obj ps]"
  by simp

lemma object_element_text: "element_text (object_element num sep d) = json_text num (JObj d)"
  by (simp add: element_text_def object_element_def json_text_def)

lemma fst_object_element: "fst (object_element num sep d) = sep"
  by (simp add: object_element_def)

lemma wf_object_element:
  assumes "\<And>v. plain_text (num v)" "separator sep"
  shows "wf_element (object_element num sep d)"
  using wf_json_pieces [of num "JObj d", OF assms(1)] assms(2)
  by (simp add: wf_element_def object_element_def)

lemma json_array_text_eq:
  "json_array_text num ds = array_text [] (json_elements num ds) [] []"
  by (cases ds) (simp_all add: json_array_text_def array_text_def join_Cons object_element_text
      fst_object_element comp_def)

lemma wf_json_elements:
  assumes "\<And>v. plain_text (num v)"
  shows "wf_array [] (json_elements num ds) []"
  by (cases ds) (auto simp: wf_array_def separator_def list_all_iff
      intro!: wf_object_element [OF assms, unfolded separator_def list_all_iff])

text \<open>
  The array of the compact texts of any objects is a well-formed input, and its candidates
  are these texts.
\<close>

lemma candidates_of_json_array:
  assumes "\<And>v. plain_text (num v)"
  shows "candidates (json_array_text num ds) = Some (map (\<lambda>d. json_text num (JObj d)) ds)"
proof -
  have "map element_text (json_elements num ds) = map (\<lambda>d. json_text num (JObj d)) ds"
    by (cases ds) (simp_all add: object_element_text)
  then show ?thesis
    using scan_array [OF wf_json_elements [of num ds, OF assms], where h = "\<lambda>b acc. acc @ [b]"
        and k = "[]" and post = "[]"]
    by (simp add: json_array_text_eq candidates_def fold_collect)
qed

section \<open>Properties of the loader\<close>

lemma load_array:
  assumes "wf_array pre elems trail"
  shows "stream_load_messages rt idict cdict bs db (array_text pre elems trail post)
     = insert_remaining rt
         (fold (\<lambda>e. on_candidate rt idict cdict bs (element_text e)) elems
            \<lparr> batch = [], total_messages = 0, store = db \<rparr>)"
proof -
  from scan_array [OF assms, of "on_candidate rt idict cdict bs"
      "\<lparr> batch = [], total_messages = 0, store = db \<rparr>" post]
  obtain rest where r: "after_open_bracket (array_text pre elems trail post) = Some rest"
    and s: "scan_loop (on_candidate rt idict cdict bs) init_scanner
              \<lparr> batch = [], total_messages = 0, store = db \<rparr> rest
       = fold (\<lambda>e. on_candidate rt idict cdict bs (element_text e)) elems
           \<lparr> batch = [], total_messages = 0, store = db \<rparr>"
    by auto
  show ?thesis
    by (simp add: stream_load_messages_def r s)
qed

lemma undecodable_dropped:
  "json_loads rt b = None \<Longrightarrow> on_candidate rt idict cdict bs b k = k"
  by (simp add: on_candidate_def)

lemma fold_skips_undecodable:
  "fold (\<lambda>e. on_candidate rt idict cdict bs (element_text e)) elems k
   = fold (\<lambda>e. on_candidate rt idict cdict bs (element_text e))
       (filter (\<lambda>e. json_loads rt (element_text e) \<noteq> None) elems) k"
  by (induction elems arbitrary: k) (auto simp: undecodable_dropped)

lemma wf_array_filter: "wf_array pre elems trail \<Longrightarrow> wf_array pre (filter P elems) trail"
  by (auto simp: wf_array_def list_all_iff)

lemma on_candidate_enrich:
  "on_candidate rt idict cdict bs b k =
     (case enrich rt idict cdict b of
        None \<Rightarrow> k
      | Some r \<Rightarrow>
          (if length (batch k) + 1 \<ge> bs then
             (case executemany_commit rt (store k) (batch k @ [r]) of
                Committed d \<Rightarrow>
                  k\<lparr> batch := [], total_messages := total_messages k + 1, store := d \<rparr>
              | Rejected d \<Rightarrow>
                  k\<lparr> batch := batch k @ [r], total_messages := total_messages k + 1,
                     store := d \<rparr>)
           else k\<lparr> batch := batch k @ [r], total_messages := total_messages k + 1 \<rparr>))"
  by (simp add: on_candidate_def enrich_def Let_def
      split: option.splits write_result.splits bind_splits)

text \<open>Evaluation of the loop on a concrete input, one character after the other.\<close>

lemma scan_loop_Cons:
  "scan_loop h s k (c # cs) =
     (if c = chr CHR '']'' \<and> brace_depth s = 0 then k
      else scan_loop h (fst (scan_step c s))
             (case snd (scan_step c s) of None \<Rightarrow> k | Some b \<Rightarrow> h b k) cs)"
  by (simp split: prod.splits option.splits)

lemma example_runtime_fields:
  "json_loads (example_runtime wr) = example_loads"
  "executemany_commit (example_runtime wr) = wr"
  by (simp_all add: example_runtime_def)

lemma make_row_id:
  "make_row (example_runtime wr) no_refs no_refs [(U ''_id'', JStr i)] = Some (example_row i)"
  by (simp add: make_row_def example_runtime_def extract_foreign_key_def instance_keys_def
      resolve_company_def parse_timestamp_def py_or_def dict_get_def extract_id_def oid_of_def
      py_str_def is_broadcast_flag_def broadcast_keys_def flag_def extract_customer_phone_def
      find_phone_def possible_fields_def parent_names_def clean_phone_def name_of_def
      detect_sentiment_def example_row_def)

lemma make_row_unhashable:
  "make_row (example_runtime wr) no_refs no_refs
     [(U ''_id'', JStr i), (U ''instance'', JObj [(U ''$oid'', JArr [JInt 1])])] = None"
  by (simp add: make_row_def example_runtime_def extract_foreign_key_def instance_keys_def
      oid_of_def refs_get_def hashable_def)

lemmas load_eval =
  stream_load_messages_def after_open_bracket_def scan_loop_Cons scan_step_def
  init_scanner_def on_candidate_def insert_remaining_def make_row_id [simplified]
  make_row_unhashable [simplified] example_runtime_fields example_loads_def

text \<open>
  C5, as stated, fails: in \<^verbatim>\<open>[{"a":"b},{"c":1}]\<close> the first object is malformed (its string
  is not closed) and the well-formed object after it is never handed to \<open>json.loads\<close>,
  while on its own it is.
\<close>

theorem malformed_object_swallows_next_counterexample:
  \<open>candidates (U ''[{"a":"b},{"c":1}]'') = Some []
   \<and> candidates (U ''[{"c":1}]'') = Some [U ''{"c":1}'']\<close>
  by (simp add: candidates_def after_open_bracket_def scan_loop_Cons scan_step_def
      init_scanner_def del: scan_loop.simps(2))

text \<open>
  C5, amended. An element whose braces and quotes are balanced and whose text
  \<open>json.loads\<close> rejects is dropped without being counted and without ending the run: the
  outcome of the run, the rows it commits and the total it returns are those of the run on
  the input without the rejected elements.
\<close>

theorem undecodable_elements_are_skipped:
  assumes "wf_array pre elems trail"
  shows "stream_load_messages rt idict cdict bs db (array_text pre elems trail post)
     = stream_load_messages rt idict cdict bs db
         (array_text pre (filter (\<lambda>e. json_loads rt (element_text e) \<noteq> None) elems)
            trail post)"
  using fold_skips_undecodable [of rt idict cdict bs elems]
  by (simp add: load_array [OF assms] load_array [OF wf_array_filter [OF assms]])

theorem undecodable_elements_are_skipped_witness:
  \<open>wf_array [] [id_element [] (U ''1''), nope_element, id_element (U '','') (U ''2'')] []
   \<and> array_text [] [id_element [] (U ''1''), nope_element, id_element (U '','') (U ''2'')] [] []
       = U ''[{"_id":"1"},{nope},{"_id":"2"}]''
   \<and> json_loads (example_runtime accepting) (element_text nope_element) = None
   \<and> stream_load_messages (example_runtime accepting) no_refs no_refs 2 []
        (U ''[{"_id":"1"},{nope},{"_id":"2"}]'')
       = stream_load_messages (example_runtime accepting) no_refs no_refs 2 []
           (U ''[{"_id":"1"},{"_id":"2"}]'')
   \<and> stream_load_messages (example_runtime accepting) no_refs no_refs 2 []
        (U ''[{"_id":"1"},{"_id":"2"}]'')
       = (Completed 2, [[example_row (U ''1''), example_row (U ''2'')]])\<close>
proof -
  let ?es = "[id_element [] (U ''1''), nope_element, id_element (U '','') (U ''2'')]"
  have w: "wf_array [] ?es []"
    by (simp add: wf_array_def wf_element_def separator_def id_element_def nope_element_def)
  have t: \<open>array_text [] ?es [] [] = U ''[{"_id":"1"},{nope},{"_id":"2"}]''\<close>
    by (simp add: array_text_def element_text_def id_element_def nope_element_def)
  have n: "json_loads (example_runtime accepting) (element_text nope_element) = None"
    by (simp add: example_runtime_fields example_loads_def element_text_def nope_element_def)
  have f: \<open>array_text []
             (filter (\<lambda>e. json_loads (example_runtime accepting) (element_text e) \<noteq> None) ?es)
             [] []
       = U ''[{"_id":"1"},{"_id":"2"}]''\<close>
    by (simp add: array_text_def element_text_def id_element_def nope_element_def
        example_runtime_fields example_loads_def)
  have r: \<open>stream_load_messages (example_runtime accepting) no_refs no_refs 2 []
        (U ''[{"_id":"1"},{"_id":"2"}]'')
       = (Completed 2, [[example_row (U ''1''), example_row (U ''2'')]])\<close>
    by (simp add: load_eval accepting_def del: scan_loop.simps(2))
  from undecodable_elements_are_skipped [OF w, of "example_runtime accepting" no_refs no_refs 2
      "[]" "[]"]
  have e: \<open>stream_load_messages (example_runtime accepting) no_refs no_refs 2 []
        (U ''[{"_id":"1"},{nope},{"_id":"2"}]'')
       = stream_load_messages (example_runtime accepting) no_refs no_refs 2 []
           (U ''[{"_id":"1"},{"_id":"2"}]'')\<close>
    unfolding t f .
  from w t n e r show ?thesis
    by blast
qed

text \<open>
  C7, as stated, fails: of five decodable records, the third holds an instance identifier
  that cannot be hashed, the lookup of line 372 raises, the record is dropped, and the run
  commits two batches, of sizes 2 and 2.
\<close>

theorem five_decodable_two_commits_counterexample:
  \<open>stream_load_messages (example_runtime accepting) no_refs no_refs 2 []
     (U ''[{"_id":"1"},{"_id":"2"},{"_id":"3","instance":{"$oid":[1]}},{"_id":"4"},{"_id":"5"}]'')
   = (Completed 4,
      [[example_row (U ''1''), example_row (U ''2'')],
       [example_row (U ''4''), example_row (U ''5'')]])\<close>
  by (simp add: load_eval accepting_def del: scan_loop.simps(2))

text \<open>
  C7, amended. With batch size 2 and an input of 5 records that are decoded and enriched
  without an exception, on a store that accepts every write, exactly 3 batches are
  committed, of sizes 2, 2 and 1 in that order, the last one by the write of the batch
  that remains; the rows are in the order of the input within and across the batches.
\<close>

theorem five_records_three_commits:
  assumes wf: "wf_array pre [e1, e2, e3, e4, e5] trail"
    and rows: "map (enrich rt idict cdict \<circ> element_text) [e1, e2, e3, e4, e5]
                 = map Some [r1, r2, r3, r4, r5]"
    and acc: "executemany_commit rt = (\<lambda>d b. Committed (d @ [b]))"
  shows "stream_load_messages rt idict cdict 2 db (array_text pre [e1, e2, e3, e4, e5] trail post)
     = (Completed 5, db @ [[r1, r2], [r3, r4], [r5]])"
  using rows
  by (simp add: load_array [OF wf] on_candidate_enrich acc insert_remaining_def)

theorem five_records_three_commits_witness:
  \<open>wf_array []
      [id_element [] (U ''1''), id_element (U '','') (U ''2''), id_element (U '','') (U ''3''),
       id_element (U '','') (U ''4''), id_element (U '','') (U ''5'')] []
   \<and> array_text []
      [id_element [] (U ''1''), id_element (U '','') (U ''2''), id_element (U '','') (U ''3''),
       id_element (U '','') (U ''4''), id_element (U '','') (U ''5'')] [] []
       = U ''[{"_id":"1"},{"_id":"2"},{"_id":"3"},{"_id":"4"},{"_id":"5"}]''
   \<and> stream_load_messages (example_runtime accepting) no_refs no_refs 2 []
        (U ''[{"_id":"1"},{"_id":"2"},{"_id":"3"},{"_id":"4"},{"_id":"5"}]'')
       = (Completed 5,
          [[example_row (U ''1''), example_row (U ''2'')],
           [example_row (U ''3''), example_row (U ''4'')],
           [example_row (U ''5'')]])\<close>
proof -
  let ?es = "[id_element [] (U ''1''), id_element (U '','') (U ''2''),
      id_element (U '','') (U ''3''), id_element (U '','') (U ''4''),
      id_element (U '','') (U ''5'')]"
  have w: "wf_array [] ?es []"
    by (simp add: wf_array_def wf_element_def separator_def id_element_def)
  have t: \<open>array_text [] ?es [] []
       = U ''[{"_id":"1"},{"_id":"2"},{"_id":"3"},{"_id":"4"},{"_id":"5"}]''\<close>
    by (simp add: array_text_def element_text_def id_element_def)
  have rows: "map (enrich (example_runtime accepting) no_refs no_refs \<circ> element_text) ?es
       = map Some [example_row (U ''1''), example_row (U ''2''), example_row (U ''3''),
           example_row (U ''4''), example_row (U ''5'')]"
    by (simp add: enrich_def element_text_def id_element_def example_runtime_fields
        example_loads_def make_row_id [simplified])
  have acc: "executemany_commit (example_runtime accepting) = (\<lambda>d b. Committed (d @ [b]))"
    by (simp add: example_runtime_fields accepting_def fun_eq_iff)
  from five_records_three_commits [OF w rows acc, of "[]" "[]"]
  have e: \<open>stream_load_messages (example_runtime accepting) no_refs no_refs 2 []
        (U ''[{"_id":"1"},{"_id":"2"},{"_id":"3"},{"_id":"4"},{"_id":"5"}]'')
       = (Completed 5,
          [[example_row (U ''1''), example_row (U ''2'')],
           [example_row (U ''3''), example_row (U ''4'')],
           [example_row (U ''5'')]])\<close>
    unfolding t by simp
  from w t e show ?thesis
    by blast
qed

text \<open>
  C8. The claim: a rejected batch write ends the run, and the failure is reported as fatal.
  On a store that rejects the first write and accepts the later ones, with batch size 1 and
  two records: the write of the first record is rejected, and the run goes on; the second
  record is scanned and enriched, the batch of both records is committed, the function
  reports completion with the total 2, and \<open>main\<close> prints its banner of success.
\<close>

theorem commit_failure_does_not_abort:
  \<open>stream_load_messages (example_runtime locked_once) no_refs no_refs 1 ([], [])
     (U ''[{"_id":"1"},{"_id":"2"}]'')
   = (Completed 2,
      ([[example_row (U ''1''), example_row (U ''2'')]],
       [[example_row (U ''1'')], [example_row (U ''1''), example_row (U ''2'')]]))
   \<and> main_banner (Completed 2) = U ''DATABASE CREATED SUCCESSFULLY!''\<close>
  by (simp add: load_eval locked_once_def main_banner_def del: scan_loop.simps(2))

text \<open>
  The sibling path: a write rejected after the loop, by the write of the batch that
  remains, ends the function with the error and the value 0; the banner of \<open>main\<close> is the
  same.
\<close>

lemma final_write_failure_returns_zero:
  \<open>stream_load_messages (example_runtime rejecting) no_refs no_refs 5000 ([] :: real row list list)
     (U ''[{"_id":"1"}]'')
   = (Failed, [])
   \<and> returned Failed = 0
   \<and> main_banner Failed = U ''DATABASE CREATED SUCCESSFULLY!''\<close>
  by (simp add: load_eval rejecting_def main_banner_def del: scan_loop.simps(2))

end
